theory Spec2Isabelle
  imports Main
begin

section \<open>Session connection manager of the trading dashboard (frontend/app/main.tsx)\<close>

text \<open>
  The component \<open>App\<close> keeps one WebSocket in the module-level variable
  \<open>__WS_SINGLETON__\<close>, reconnects after an abnormal close through \<open>setTimeout\<close>, and
  applies inbound frames to the React state \<open>user\<close>, \<open>account\<close>, \<open>overview\<close>.
  The code is event driven and single threaded, so it is embedded as functions from state
  to state: one function per handler of the source, and one function \<open>step\<close> for what
  the browser does when it delivers an event. Console output is not part of the state.
\<close>

subsection \<open>Values\<close>

text \<open>
  A JavaScript value as \<open>JSON.parse\<close> and property access produce it. Numbers are kept
  as integers: the handlers only test them for truthiness and store them.
\<close>

datatype js =
    JUndefined
  | JNull
  | JBool bool
  | JNum int
  | JStr string
  | JArr "js list"
  | JObj "(string \<times> js) list"

datatype exn = SyntaxError | TypeError | InvalidStateError

text \<open>The truth value of \<open>if (v)\<close> and of the left operand of \<open>v || w\<close>.\<close>

fun truthy :: "js \<Rightarrow> bool" where
  "truthy JUndefined = False"
| "truthy JNull = False"
| "truthy (JBool b) = b"
| "truthy (JNum n) = (n \<noteq> 0)"
| "truthy (JStr t) = (t \<noteq> [])"
| "truthy (JArr xs) = True"
| "truthy (JObj kvs) = True"

text \<open>
  Property access \<open>v.k\<close> for the property names the handlers read (\<open>type\<close>, \<open>user\<close>,
  \<open>account\<close>, \<open>overview\<close>, \<open>message\<close>, \<open>username\<close>, \<open>name\<close>): it throws a TypeError on
  \<open>undefined\<close> and \<open>null\<close>, finds an own property of an object, and is \<open>undefined\<close>
  otherwise (none of these names is inherited by a string, number, boolean or array).
\<close>

fun get_prop :: "js \<Rightarrow> string \<Rightarrow> exn + js" where
  "get_prop JUndefined k = Inl TypeError"
| "get_prop JNull k = Inl TypeError"
| "get_prop (JObj kvs) k = Inr (case map_of kvs k of None \<Rightarrow> JUndefined | Some v \<Rightarrow> v)"
| "get_prop v k = Inr JUndefined"

text \<open>The same access where the receiver is already known not to be nullish.\<close>

definition jsprop :: "js \<Rightarrow> string \<Rightarrow> js" where
  "jsprop v k = (case get_prop v k of Inl _ \<Rightarrow> JUndefined | Inr w \<Rightarrow> w)"

text \<open>A message event carries a text frame or binary data (a Blob or ArrayBuffer).\<close>

datatype frame = Text string | Binary

text \<open>The frames the client sends, before \<open>JSON.stringify\<close>.\<close>

datatype outmsg =
    Bootstrap string int
  | GetSnapshot
  | SwitchUser string

text \<open>
  The notifications of react-hot-toast. \<open>SwitchedTo v\<close> is the template string
  \<open>Switched to ${v}\<close>; \<open>Dyn v\<close> is a value passed as the message.
\<close>

datatype text_content = Lit string | SwitchedTo js | Dyn js

datatype toast = ToastSuccess text_content | ToastPlain text_content | ToastError text_content

subsection \<open>State\<close>

datatype readyState = CONNECTING | OPEN | CLOSING | CLOSED

datatype evkind = EvOpen | EvMessage | EvClose | EvError

text \<open>
  A WebSocket object of the browser: its ready state, the listeners added to it (the kind
  of event and the run of the effect whose handler it is), and the frames handed to
  \<open>send\<close> while it was open. A socket is named by its index in \<open>sockets\<close>.
\<close>

record socket =
  readyState :: readyState
  listeners :: "(evkind \<times> nat) list"
  outbox :: "outmsg list"

text \<open>
  A pending timer of \<open>setTimeout\<close>: its handle, the time at which it is due, and the run
  of the effect whose \<open>connectWebSocket\<close> it calls.
\<close>

record timer =
  tid :: nat
  due :: nat
  owner :: nat

text \<open>
  The variables \<open>reconnectTimer\<close> and \<open>ws\<close> that one run of the effect declares and its
  handlers close over. A timer handle is a positive integer, hence truthy; \<open>None\<close> is
  \<open>null\<close>.
\<close>

record closure =
  reconnectTimer :: "nat option"
  ws :: "nat option"

record state =
  singleton :: "nat option"
  user :: js
  account :: js
  overview :: js
  wsRef :: "nat option"
  closures :: "closure list"
  sockets :: "socket list"
  timers :: "timer list"
  next_tid :: nat
  now :: nat
  toasts :: "toast list"

text \<open>The state before the component is mounted: \<open>useState(null)\<close>, \<open>useRef(null)\<close>.\<close>

definition init_state :: state where
  "init_state =
     \<lparr>singleton = None, user = JNull, account = JNull, overview = JNull, wsRef = None,
      closures = [], sockets = [], timers = [], next_tid = 1, now = 0, toasts = []\<rparr>"

definition sock_state :: "state \<Rightarrow> nat \<Rightarrow> readyState option" where
  "sock_state s i = (if i < length (sockets s) then Some (readyState (sockets s ! i)) else None)"

definition upd_sock :: "nat \<Rightarrow> (socket \<Rightarrow> socket) \<Rightarrow> state \<Rightarrow> state" where
  "upd_sock i f s =
     (if i < length (sockets s) then s\<lparr>sockets := (sockets s)[i := f (sockets s ! i)]\<rparr> else s)"

definition closure_ws :: "state \<Rightarrow> nat \<Rightarrow> nat option" where
  "closure_ws s c = (if c < length (closures s) then ws (closures s ! c) else None)"

definition closure_timer :: "state \<Rightarrow> nat \<Rightarrow> nat option" where
  "closure_timer s c = (if c < length (closures s) then reconnectTimer (closures s ! c) else None)"

definition upd_closure :: "nat \<Rightarrow> (closure \<Rightarrow> closure) \<Rightarrow> state \<Rightarrow> state" where
  "upd_closure c f s =
     (if c < length (closures s) then s\<lparr>closures := (closures s)[c := f (closures s ! c)]\<rparr> else s)"

text \<open>The connections that are in flight or established.\<close>

definition live :: "socket \<Rightarrow> bool" where
  "live k = (readyState k = CONNECTING \<or> readyState k = OPEN)"

definition inflight :: "state \<Rightarrow> nat" where
  "inflight s = length (filter live (sockets s))"

subsection \<open>Browser primitives\<close>

text \<open>
  \<open>sock.send(m)\<close>: throws InvalidStateError while the socket is connecting, transmits
  when it is open, and discards the data when it is closing or closed. A call on \<open>null\<close>
  is a TypeError.
\<close>

definition ws_send :: "nat option \<Rightarrow> outmsg \<Rightarrow> state \<Rightarrow> exn option \<times> state" where
  "ws_send target m s =
     (case target of
        None \<Rightarrow> (Some TypeError, s)
      | Some i \<Rightarrow>
          (case sock_state s i of
             None \<Rightarrow> (Some TypeError, s)
           | Some CONNECTING \<Rightarrow> (Some InvalidStateError, s)
           | Some OPEN \<Rightarrow> (None, upd_sock i (\<lambda>k. k\<lparr>outbox := outbox k @ [m]\<rparr>) s)
           | Some CLOSING \<Rightarrow> (None, s)
           | Some CLOSED \<Rightarrow> (None, s)))"

text \<open>
  \<open>reconnectTimer = setTimeout(connectWebSocket, d)\<close> in run \<open>c\<close> of the effect: a new
  timer that is due \<open>d\<close> milliseconds from now, its handle stored in the run's variable.
\<close>

definition setTimeout_reconnect :: "nat \<Rightarrow> nat \<Rightarrow> state \<Rightarrow> state" where
  "setTimeout_reconnect d c s =
     upd_closure c (\<lambda>v. v\<lparr>reconnectTimer := Some (next_tid s)\<rparr>)
       (s\<lparr>timers := timers s @ [\<lparr>tid = next_tid s, due = now s + d, owner = c\<rparr>],
          next_tid := Suc (next_tid s)\<rparr>)"

definition clearTimeout :: "nat \<Rightarrow> state \<Rightarrow> state" where
  "clearTimeout t s = s\<lparr>timers := filter (\<lambda>x. tid x \<noteq> t) (timers s)\<rparr>"

text \<open>
  Handles are handed out in increasing order, so every pending timer has a handle below
  the next one. The initial state has this property and every event keeps it.
\<close>

definition fresh_timers :: "state \<Rightarrow> bool" where
  "fresh_timers s = list_all (\<lambda>x. tid x < next_tid s) (timers s)"

definition toast_add :: "toast \<Rightarrow> state \<Rightarrow> state" where
  "toast_add t s = s\<lparr>toasts := toasts s @ [t]\<rparr>"

subsection \<open>The handlers of \<open>connectWebSocket\<close>\<close>

text \<open>\<open>handleOpen\<close>: sends the bootstrap message on the run's socket \<open>ws\<close>.\<close>

definition handleOpen :: "nat \<Rightarrow> state \<Rightarrow> exn option \<times> state" where
  "handleOpen c s = ws_send (closure_ws s c) (Bootstrap ''default'' 10000) s"

text \<open>
  The body of the \<open>try\<close> block of \<open>handleMessage\<close>. The result is the exception that
  leaves the block, if any, and the state reached at that point. \<open>parse\<close> is
  \<open>JSON.parse\<close>, with \<open>None\<close> for a SyntaxError.
\<close>

definition handleMessage_try ::
  "(string \<Rightarrow> js option) \<Rightarrow> nat \<Rightarrow> frame \<Rightarrow> state \<Rightarrow> exn option \<times> state" where
  "handleMessage_try parse c e s =
     (case e of
        Binary \<Rightarrow> (Some TypeError, s)
      | Text d \<Rightarrow>
          (case parse d of
             None \<Rightarrow> (Some SyntaxError, s)
           | Some msg \<Rightarrow>
               (case get_prop msg ''type'' of
                  Inl x \<Rightarrow> (Some x, s)
                | Inr ty \<Rightarrow>
                    if ty = JStr ''bootstrap_ok'' then
                      (let s1 = (if truthy (jsprop msg ''user'')
                                 then s\<lparr>user := jsprop msg ''user''\<rparr> else s);
                           s2 = (if truthy (jsprop msg ''account'')
                                 then s1\<lparr>account := jsprop msg ''account''\<rparr> else s1)
                       in ws_send (closure_ws s2 c) GetSnapshot s2)
                    else if ty = JStr ''snapshot'' then
                      (None, s\<lparr>overview := jsprop msg ''overview''\<rparr>)
                    else if ty = JStr ''order_filled'' then
                      ws_send (closure_ws s c) GetSnapshot
                        (toast_add (ToastSuccess (Lit ''Order filled'')) s)
                    else if ty = JStr ''order_pending'' then
                      ws_send (closure_ws s c) GetSnapshot
                        (toast_add (ToastPlain (Lit ''Order placed, waiting for fill'')) s)
                    else if ty = JStr ''user_switched'' then
                      (case get_prop (jsprop msg ''user'') ''username'' of
                         Inl x \<Rightarrow> (Some x, s)
                       | Inr n \<Rightarrow>
                           (None, (toast_add (ToastSuccess (SwitchedTo n)) s)
                                    \<lparr>user := jsprop msg ''user''\<rparr>))
                    else if ty = JStr ''account_switched'' then
                      (case get_prop (jsprop msg ''account'') ''name'' of
                         Inl x \<Rightarrow> (Some x, s)
                       | Inr n \<Rightarrow>
                           (None, (toast_add (ToastSuccess (SwitchedTo n)) s)
                                    \<lparr>account := jsprop msg ''account''\<rparr>))
                    else if ty = JStr ''error'' then
                      (None, toast_add
                         (ToastError (if truthy (jsprop msg ''message'')
                                      then Dyn (jsprop msg ''message'')
                                      else Lit ''Order error'')) s)
                    else (None, s))))"

text \<open>
  \<open>handleMessage\<close>: the \<open>catch\<close> clause only writes to the console, so whatever leaves
  the \<open>try\<close> block ends there and the handler returns normally.
\<close>

definition handleMessage :: "(string \<Rightarrow> js option) \<Rightarrow> nat \<Rightarrow> frame \<Rightarrow> state \<Rightarrow> state" where
  "handleMessage parse c e s = snd (handleMessage_try parse c e s)"

text \<open>\<open>handleClose\<close> for a close event with the given code.\<close>

definition handleClose :: "nat \<Rightarrow> nat \<Rightarrow> state \<Rightarrow> state" where
  "handleClose c code s =
     (let s1 = s\<lparr>singleton := None\<rparr>;
          s2 = (if wsRef s1 = closure_ws s1 c then s1\<lparr>wsRef := None\<rparr> else s1)
      in if code \<noteq> 1000 \<and> code \<noteq> 1001 then setTimeout_reconnect 3000 c s2 else s2)"

text \<open>\<open>handleError\<close> only writes to the console.\<close>

definition handleError :: "nat \<Rightarrow> state \<Rightarrow> state" where
  "handleError c s = s"

subsection \<open>\<open>connectWebSocket\<close> and the effect\<close>

text \<open>
  The \<open>try\<close> block of \<open>connectWebSocket\<close> in run \<open>c\<close>. The only statement of the block
  that can throw is \<open>new WebSocket(wsUrl)\<close>; the flag says whether it does. Nothing has
  been assigned at that point.
\<close>

definition connectWebSocket_try :: "bool \<Rightarrow> nat \<Rightarrow> state \<Rightarrow> exn + state" where
  "connectWebSocket_try throws c s =
     (if throws then Inl SyntaxError
      else
        (let i = length (sockets s);
             s1 = s\<lparr>sockets := sockets s @
                    [\<lparr>readyState = CONNECTING, listeners = [], outbox = []\<rparr>]\<rparr>;
             s2 = upd_closure c (\<lambda>v. v\<lparr>ws := Some i\<rparr>) s1;
             s3 = s2\<lparr>singleton := Some i\<rparr>;
             s4 = s3\<lparr>wsRef := Some i\<rparr>
         in Inr (upd_sock i
                  (\<lambda>k. k\<lparr>listeners := listeners k @
                          [(EvOpen, c), (EvMessage, c), (EvClose, c), (EvError, c)]\<rparr>) s4)))"

text \<open>
  \<open>connectWebSocket\<close>: the \<open>catch\<close> clause schedules a retry. The function that detaches
  the listeners is the return value of the \<open>try\<close> block; no caller keeps it.
\<close>

definition connectWebSocket :: "bool \<Rightarrow> nat \<Rightarrow> state \<Rightarrow> state" where
  "connectWebSocket throws c s =
     (case connectWebSocket_try throws c s of
        Inl _ \<Rightarrow> setTimeout_reconnect 5000 c s
      | Inr s' \<Rightarrow> s')"

text \<open>
  \<open>created\<close>: there is no singleton, or it is closing or closed.
\<close>

definition created :: "state \<Rightarrow> bool" where
  "created s =
     (case singleton s of
        None \<Rightarrow> True
      | Some i \<Rightarrow> sock_state s i = Some CLOSING \<or> sock_state s i = Some CLOSED)"

text \<open>
  One run of the effect body (a mount or a re-initialisation of the component). The run
  gets the next index in \<open>closures\<close>.
\<close>

definition effect :: "bool \<Rightarrow> state \<Rightarrow> state" where
  "effect throws s =
     (let c = length (closures s);
          s1 = s\<lparr>closures := closures s @ [\<lparr>reconnectTimer = None, ws = singleton s\<rparr>]\<rparr>
      in if created s then connectWebSocket throws c s1
         else s1\<lparr>wsRef := singleton s\<rparr>)"

text \<open>The cleanup function that run \<open>c\<close> of the effect returns.\<close>

definition cleanup :: "nat \<Rightarrow> state \<Rightarrow> state" where
  "cleanup c s =
     (case closure_timer s c of
        None \<Rightarrow> s
      | Some t \<Rightarrow> clearTimeout t s)"

subsection \<open>Outbound intents\<close>

text \<open>\<open>wsRef.current.readyState === WebSocket.OPEN\<close>, for a reference that is not null.\<close>

definition ref_open :: "state \<Rightarrow> bool" where
  "ref_open s = (case wsRef s of None \<Rightarrow> False | Some i \<Rightarrow> sock_state s i = Some OPEN)"

definition switchUser :: "string \<Rightarrow> state \<Rightarrow> state" where
  "switchUser username s =
     (if wsRef s = None \<or> \<not> ref_open s
      then toast_add (ToastError (Lit ''Not connected to server'')) s
      else
        (case ws_send (wsRef s) (SwitchUser username) s of
           (None, s') \<Rightarrow> toast_add (ToastPlain (Lit ''Switching account...'')) s'
         | (Some _, s') \<Rightarrow> toast_add (ToastError (Lit ''Failed to switch user'')) s'))"

definition handleAccountUpdated :: "state \<Rightarrow> state" where
  "handleAccountUpdated s =
     (if wsRef s \<noteq> None \<and> ref_open s then snd (ws_send (wsRef s) GetSnapshot s) else s)"

subsection \<open>Delivery of events\<close>

text \<open>
  What the browser does with an event. A socket event changes the ready state and then
  calls the listeners of its kind that are attached to that socket, in the order in which
  they were added. An exception that leaves a listener is reported by the browser and
  ends that listener only.
\<close>

datatype sock_event = Opened | Message frame | Closed nat | Errored

fun kind_of :: "sock_event \<Rightarrow> evkind" where
  "kind_of Opened = EvOpen"
| "kind_of (Message e) = EvMessage"
| "kind_of (Closed code) = EvClose"
| "kind_of Errored = EvError"

fun handler :: "(string \<Rightarrow> js option) \<Rightarrow> sock_event \<Rightarrow> nat \<Rightarrow> state \<Rightarrow> state" where
  "handler parse Opened c s = snd (handleOpen c s)"
| "handler parse (Message e) c s = handleMessage parse c e s"
| "handler parse (Closed code) c s = handleClose c code s"
| "handler parse Errored c s = handleError c s"

definition listeners_for :: "state \<Rightarrow> nat \<Rightarrow> evkind \<Rightarrow> nat list" where
  "listeners_for s i k =
     (if i < length (sockets s)
      then map snd (filter (\<lambda>l. fst l = k) (listeners (sockets s ! i))) else [])"

definition dispatch :: "(string \<Rightarrow> js option) \<Rightarrow> nat \<Rightarrow> sock_event \<Rightarrow> state \<Rightarrow> state" where
  "dispatch parse i ev s = fold (handler parse ev) (listeners_for s i (kind_of ev)) s"

definition set_ready :: "nat \<Rightarrow> readyState \<Rightarrow> state \<Rightarrow> state" where
  "set_ready i r s = upd_sock i (\<lambda>k. k\<lparr>readyState := r\<rparr>) s"

text \<open>
  An open event comes to a connecting socket, a message to an open one, and the close
  event once, to a socket that is not yet closed.
\<close>

fun deliver :: "(string \<Rightarrow> js option) \<Rightarrow> nat \<Rightarrow> sock_event \<Rightarrow> state \<Rightarrow> state" where
  "deliver parse i Opened s =
     (if sock_state s i = Some CONNECTING then dispatch parse i Opened (set_ready i OPEN s) else s)"
| "deliver parse i (Message e) s =
     (if sock_state s i = Some OPEN then dispatch parse i (Message e) s else s)"
| "deliver parse i (Closed code) s =
     (if sock_state s i \<noteq> None \<and> sock_state s i \<noteq> Some CLOSED
      then dispatch parse i (Closed code) (set_ready i CLOSED s) else s)"
| "deliver parse i Errored s =
     (if sock_state s i \<noteq> None \<and> sock_state s i \<noteq> Some CLOSED
      then dispatch parse i Errored s else s)"

text \<open>
  A timer fires at most once and not before it is due; firing it calls
  \<open>connectWebSocket\<close> of the run that set it.
\<close>

definition fire :: "nat \<Rightarrow> bool \<Rightarrow> state \<Rightarrow> state" where
  "fire t throws s =
     (case find (\<lambda>x. tid x = t) (timers s) of
        None \<Rightarrow> s
      | Some x \<Rightarrow>
          if due x \<le> now s then connectWebSocket throws (owner x) (clearTimeout t s) else s)"

text \<open>
  The events of the component: the first mount, a re-initialisation (React calls the
  cleanup of the latest run of the effect and then runs the effect again), the unmount,
  the events of a socket, the start of a closing handshake, the passing of time, a timer,
  and the two intents of the user interface. The flag of \<open>Mount\<close>, \<open>Reinit\<close> and
  \<open>Fire\<close> says whether the WebSocket constructor throws.
\<close>

datatype event =
    Mount bool
  | Reinit bool
  | Unmount
  | Sock nat sock_event
  | Closing nat
  | Tick nat
  | Fire nat bool
  | UserSwitch string
  | AccountUpdated

fun step :: "(string \<Rightarrow> js option) \<Rightarrow> event \<Rightarrow> state \<Rightarrow> state" where
  "step parse (Mount throws) s = effect throws s"
| "step parse (Reinit throws) s = effect throws (cleanup (length (closures s) - 1) s)"
| "step parse Unmount s = cleanup (length (closures s) - 1) s"
| "step parse (Sock i ev) s = deliver parse i ev s"
| "step parse (Closing i) s =
     (if sock_state s i = Some OPEN then set_ready i CLOSING s else s)"
| "step parse (Tick d) s = s\<lparr>now := now s + d\<rparr>"
| "step parse (Fire t throws) s = fire t throws s"
| "step parse (UserSwitch username) s = switchUser username s"
| "step parse AccountUpdated s = handleAccountUpdated s"

definition run :: "(string \<Rightarrow> js option) \<Rightarrow> event list \<Rightarrow> state \<Rightarrow> state" where
  "run parse evs s = fold (step parse) evs s"

subsection \<open>Frames with a recognised type\<close>

text \<open>The values of \<open>type\<close> that \<open>handleMessage\<close> has a branch for.\<close>

definition recognised :: "js \<Rightarrow> bool" where
  "recognised ty = (ty \<in> set (map JStr [''bootstrap_ok'', ''snapshot'', ''order_filled'',
      ''order_pending'', ''user_switched'', ''account_switched'', ''error'']))"

text \<open>
  The frame is a text that parses to a value whose \<open>type\<close> can be read and is one of
  those seven.
\<close>

definition known_type :: "(string \<Rightarrow> js option) \<Rightarrow> frame \<Rightarrow> bool" where
  "known_type parse e =
     (case e of
        Binary \<Rightarrow> False
      | Text d \<Rightarrow>
          (case parse d of
             None \<Rightarrow> False
           | Some msg \<Rightarrow>
               (case get_prop msg ''type'' of Inl _ \<Rightarrow> False | Inr ty \<Rightarrow> recognised ty)))"

subsection \<open>Example inputs\<close>

text \<open>A \<open>JSON.parse\<close> that rejects every text.\<close>

definition reject_all :: "string \<Rightarrow> js option" where
  "reject_all d = None"

text \<open>
  A \<open>JSON.parse\<close> given as a table of frame texts and their parsed values; the texts
  are written without the double quotes of JSON. Every other text is rejected.
\<close>

definition sample_frames :: "(string \<times> js) list" where
  "sample_frames =
     [(''{type:bootstrap_ok,user:{id:1,username:default},account:{id:7}}'',
         JObj [(''type'', JStr ''bootstrap_ok''),
               (''user'', JObj [(''id'', JNum 1), (''username'', JStr ''default'')]),
               (''account'', JObj [(''id'', JNum 7)])]),
      (''{type:snapshot,overview:{total_assets:10000,positions_value:0}}'',
         JObj [(''type'', JStr ''snapshot''),
               (''overview'', JObj [(''total_assets'', JNum 10000), (''positions_value'', JNum 0)])]),
      (''{type:snapshot}'', JObj [(''type'', JStr ''snapshot'')]),
      (''{type:user_switched,user:{id:2,username:alice}}'',
         JObj [(''type'', JStr ''user_switched''),
               (''user'', JObj [(''id'', JNum 2), (''username'', JStr ''alice'')])]),
      (''{type:user_switched}'', JObj [(''type'', JStr ''user_switched'')]),
      (''{type:account_switched,account:{id:8,name:main}}'',
         JObj [(''type'', JStr ''account_switched''),
               (''account'', JObj [(''id'', JNum 8), (''name'', JStr ''main'')])]),
      (''{type:account_switched}'', JObj [(''type'', JStr ''account_switched'')]),
      (''{type:price_tick}'', JObj [(''type'', JStr ''price_tick'')]),
      (''null'', JNull)]"

definition sample_parse :: "string \<Rightarrow> js option" where
  "sample_parse = map_of sample_frames"

text \<open>The state after the mount and the open event of the first socket.\<close>

definition opened :: state where
  "opened = run sample_parse [Mount False, Sock 0 Opened] init_state"

subsection \<open>Reachable states\<close>

text \<open>
  \<open>connectWebSocket\<close> adds the four handlers of its run to the socket it creates, and no
  listener is added or removed anywhere else. \<open>creator\<close> is the run whose handlers a
  socket carries.
\<close>

definition four_handlers :: "nat \<Rightarrow> (evkind \<times> nat) list" where
  "four_handlers c = [(EvOpen, c), (EvMessage, c), (EvClose, c), (EvError, c)]"

definition creator :: "socket \<Rightarrow> nat" where
  "creator k = (case listeners k of [] \<Rightarrow> 0 | l # _ \<Rightarrow> snd l)"

definition own_listeners :: "state \<Rightarrow> bool" where
  "own_listeners s = list_all (\<lambda>k. listeners k = four_handlers (creator k)) (sockets s)"

text \<open>What holds in the initial state and after every event.\<close>

definition reachable_inv :: "state \<Rightarrow> bool" where
  "reachable_inv s = (fresh_timers s \<and> own_listeners s)"

text \<open>The events that run the effect.\<close>

fun lifecycle :: "event \<Rightarrow> bool" where
  "lifecycle (Mount b) = True"
| "lifecycle (Reinit b) = True"
| "lifecycle ev = False"

text \<open>
  The sockets that have not had their close event, and the number of those plus the
  pending timers: everything that is or may become a connection.
\<close>

definition unclosed :: "state \<Rightarrow> nat" where
  "unclosed s = length (filter (\<lambda>r. r \<noteq> CLOSED) (map readyState (sockets s)))"

definition pending :: "state \<Rightarrow> nat" where
  "pending s = unclosed s + length (timers s)"

section \<open>Pagination controls of the data tables (TradingDataView.tsx)\<close>

text \<open>
  Each of the four tables holds \<open>page\<close> (initially 1), the response \<open>data\<close> of the last
  successful load (initially \<open>null\<close>) and \<open>loading\<close>, and renders \<open>PaginationControls\<close>
  with \<open>totalPages = data?.total_pages || 0\<close>. Page numbers are integers.
\<close>

record table =
  page :: int
  total_pages :: "int option"
  loading :: bool

definition init_table :: table where
  "init_table = \<lparr>page = 1, total_pages = None, loading = False\<rparr>"

definition totalPages :: "table \<Rightarrow> int" where
  "totalPages t = (case total_pages t of None \<Rightarrow> 0 | Some n \<Rightarrow> if n \<noteq> 0 then n else 0)"

datatype button = First | Prev | Next | Last

fun disabled :: "button \<Rightarrow> table \<Rightarrow> bool" where
  "disabled First t = (page t = 1 \<or> loading t)"
| "disabled Prev t = (page t = 1 \<or> loading t)"
| "disabled Next t = (page t \<ge> totalPages t \<or> loading t)"
| "disabled Last t = (page t \<ge> totalPages t \<or> loading t)"

text \<open>The argument of \<open>onPageChange\<close> in the button's \<open>onClick\<close>.\<close>

fun requested :: "button \<Rightarrow> table \<Rightarrow> int" where
  "requested First t = 1"
| "requested Prev t = page t - 1"
| "requested Next t = page t + 1"
| "requested Last t = totalPages t"

text \<open>A click on a disabled button does nothing; otherwise \<open>setPage\<close> gets the request.\<close>

definition click :: "button \<Rightarrow> table \<Rightarrow> table" where
  "click b t = (if disabled b t then t else t\<lparr>page := requested b t\<rparr>)"

text \<open>
  The events of a table: a click, and the three moments of \<open>loadData\<close> (it sets
  \<open>loading\<close>, then stores the response or fails, and clears \<open>loading\<close>).
\<close>

datatype table_event = Click button | LoadStart | LoadOk int | LoadFailed

fun table_step :: "table_event \<Rightarrow> table \<Rightarrow> table" where
  "table_step (Click b) t = click b t"
| "table_step LoadStart t = t\<lparr>loading := True\<rparr>"
| "table_step (LoadOk n) t = t\<lparr>total_pages := Some n, loading := False\<rparr>"
| "table_step LoadFailed t = t\<lparr>loading := False\<rparr>"

definition table_run :: "table_event list \<Rightarrow> table \<Rightarrow> table" where
  "table_run evs t = fold table_step evs t"

section \<open>Properties of the connection manager\<close>

subsection \<open>Timers, sockets and the clock under the primitives\<close>

lemma find_app:
  "find P (xs @ ys) = (case find P xs of None \<Rightarrow> find P ys | Some x \<Rightarrow> Some x)"
  by (induction xs) auto

lemma find_fresh_none:
  "list_all (\<lambda>x. tid x < n) xs \<Longrightarrow> find (\<lambda>x. tid x = n) xs = None"
  by (induction xs) auto

lemma find_filter_none: "find (\<lambda>x. tid x = t) (filter (\<lambda>x. tid x \<noteq> t) xs) = None"
  by (induction xs) auto

lemma timers_setTimeout:
  "timers (setTimeout_reconnect d c s) = timers s @ [\<lparr>tid = next_tid s, due = now s + d, owner = c\<rparr>]"
  by (simp add: setTimeout_reconnect_def upd_closure_def)

lemma sockets_setTimeout: "sockets (setTimeout_reconnect d c s) = sockets s"
  by (simp add: setTimeout_reconnect_def upd_closure_def)

lemma now_setTimeout: "now (setTimeout_reconnect d c s) = now s"
  by (simp add: setTimeout_reconnect_def upd_closure_def)

lemma next_tid_setTimeout: "next_tid (setTimeout_reconnect d c s) = Suc (next_tid s)"
  by (simp add: setTimeout_reconnect_def upd_closure_def)

lemma timers_handleClose:
  "timers (handleClose c code s) =
     (if code \<noteq> 1000 \<and> code \<noteq> 1001
      then timers s @ [\<lparr>tid = next_tid s, due = now s + 3000, owner = c\<rparr>] else timers s)"
  by (simp add: handleClose_def Let_def timers_setTimeout)

lemma sockets_handleClose: "sockets (handleClose c code s) = sockets s"
  by (simp add: handleClose_def Let_def sockets_setTimeout)

lemma now_handleClose: "now (handleClose c code s) = now s"
  by (simp add: handleClose_def Let_def now_setTimeout)

lemma next_tid_handleClose: "next_tid (handleClose c code s) = (if code \<noteq> 1000 \<and> code \<noteq> 1001 then Suc (next_tid s) else next_tid s)"
  by (simp add: handleClose_def Let_def next_tid_setTimeout)

lemma find_new_timer:
  assumes "fresh_timers s"
  shows "find (\<lambda>x. tid x = next_tid s) (timers s @ [\<lparr>tid = next_tid s, due = w, owner = c\<rparr>])
           = Some \<lparr>tid = next_tid s, due = w, owner = c\<rparr>"
  using assms by (simp add: fresh_timers_def find_app find_fresh_none)

lemma timers_connect:
  "timers (connectWebSocket b c s) =
     (if b then timers s @ [\<lparr>tid = next_tid s, due = now s + 5000, owner = c\<rparr>] else timers s)"
  by (simp add: connectWebSocket_def connectWebSocket_try_def Let_def timers_setTimeout
        upd_sock_def upd_closure_def)

lemma sockets_connect:
  "sockets (connectWebSocket b c s) =
     (if b then sockets s
      else sockets s @ [\<lparr>readyState = CONNECTING,
              listeners = [(EvOpen, c), (EvMessage, c), (EvClose, c), (EvError, c)], outbox = []\<rparr>])"
  by (simp add: connectWebSocket_def connectWebSocket_try_def Let_def sockets_setTimeout
        upd_sock_def upd_closure_def)

lemma fire_early:
  assumes "find (\<lambda>x. tid x = t) (timers s) = Some x" "now s < due x"
  shows "fire t b s = s"
  using assms by (simp add: fire_def)

lemma fire_due:
  assumes "find (\<lambda>x. tid x = t) (timers s) = Some x" "due x \<le> now s"
  shows "fire t b s = connectWebSocket b (owner x) (clearTimeout t s)"
  using assms by (simp add: fire_def)

lemma fire_absent:
  assumes "find (\<lambda>x. tid x = t) (timers s) = None"
  shows "fire t b s = s"
  using assms by (simp add: fire_def)

lemma fire_twice:
  assumes "t < next_tid s"
  shows "fire t b' (fire t b s) = fire t b s"
proof (cases "find (\<lambda>x. tid x = t) (timers s)")
  case None
  then show ?thesis by (simp add: fire_absent)
next
  case (Some x)
  show ?thesis
  proof (cases "due x \<le> now s")
    case True
    have "find (\<lambda>x. tid x = t) (timers (connectWebSocket b (owner x) (clearTimeout t s))) = None"
      using assms by (simp add: timers_connect clearTimeout_def find_app find_filter_none)
    then show ?thesis using Some True by (simp add: fire_due fire_absent)
  next
    case False
    then show ?thesis using Some by (simp add: fire_early)
  qed
qed

subsection \<open>Reconnection after a close event\<close>

text \<open>
  Claim C1. A close event whose code is neither 1000 nor 1001 schedules exactly one
  reconnect: \<open>handleClose\<close> adds one timer, due 3000 ms from now, and opens nothing
  itself; the timer cannot fire before it is due, fires once (a second firing changes
  nothing) and then makes one connection attempt. A close event with code 1000 or 1001
  schedules nothing.
\<close>

theorem close_schedules_one_reconnect:
  assumes "fresh_timers s"
  shows "(code \<noteq> 1000 \<and> code \<noteq> 1001 \<longrightarrow>
            timers (handleClose c code s) =
              timers s @ [\<lparr>tid = next_tid s, due = now s + 3000, owner = c\<rparr>]
          \<and> sockets (handleClose c code s) = sockets s
          \<and> (\<forall>d b. d < 3000 \<longrightarrow>
                fire (next_tid s) b (step parse (Tick d) (handleClose c code s))
                  = step parse (Tick d) (handleClose c code s))
          \<and> (\<forall>d. 3000 \<le> d \<longrightarrow>
                length (sockets (fire (next_tid s) False (step parse (Tick d) (handleClose c code s))))
                  = Suc (length (sockets s)))
          \<and> (\<forall>d b b'. fire (next_tid s) b' (fire (next_tid s) b (step parse (Tick d) (handleClose c code s)))
                  = fire (next_tid s) b (step parse (Tick d) (handleClose c code s))))
       \<and> (code = 1000 \<or> code = 1001 \<longrightarrow>
            timers (handleClose c code s) = timers s
          \<and> sockets (handleClose c code s) = sockets s)"
proof (intro conjI impI allI)
  assume ab: "code \<noteq> 1000 \<and> code \<noteq> 1001"
  let ?s' = "handleClose c code s"
  let ?T = "\<lparr>tid = next_tid s, due = now s + 3000, owner = c\<rparr>"
  show tm: "timers ?s' = timers s @ [?T]" using ab by (simp add: timers_handleClose)
  show "sockets ?s' = sockets s" by (rule sockets_handleClose)
  have fnd: "\<And>d. find (\<lambda>x. tid x = next_tid s) (timers (step parse (Tick d) ?s')) = Some ?T"
    using find_new_timer [OF assms] tm by simp
  { fix d :: nat and b assume "d < 3000"
    then have "now (step parse (Tick d) ?s') < due ?T" by (simp add: now_handleClose)
    then show "fire (next_tid s) b (step parse (Tick d) ?s') = step parse (Tick d) ?s'"
      using fnd fire_early by blast }
  { fix d :: nat assume "3000 \<le> d"
    then have "due ?T \<le> now (step parse (Tick d) ?s')" by (simp add: now_handleClose)
    then have "fire (next_tid s) False (step parse (Tick d) ?s')
                 = connectWebSocket False (owner ?T) (clearTimeout (next_tid s) (step parse (Tick d) ?s'))"
      using fnd fire_due by blast
    then show "length (sockets (fire (next_tid s) False (step parse (Tick d) ?s'))) = Suc (length (sockets s))"
      by (simp add: sockets_connect clearTimeout_def sockets_handleClose) }
  { fix d b b'
    have "next_tid s < next_tid (step parse (Tick d) ?s')" using ab by (simp add: next_tid_handleClose)
    then show "fire (next_tid s) b' (fire (next_tid s) b (step parse (Tick d) ?s'))
                  = fire (next_tid s) b (step parse (Tick d) ?s')"
      by (rule fire_twice) }
next
  assume "code = 1000 \<or> code = 1001"
  then show "timers (handleClose c code s) = timers s" by (auto simp add: timers_handleClose)
next
  show "sockets (handleClose c code s) = sockets s" by (rule sockets_handleClose)
qed

theorem close_schedules_one_reconnect_witness:
  "fresh_timers init_state
   \<and> timers (handleClose 0 1006 init_state) = [\<lparr>tid = 1, due = 3000, owner = 0\<rparr>]
   \<and> fire 1 False (step reject_all (Tick 2999) (handleClose 0 1006 init_state))
         = step reject_all (Tick 2999) (handleClose 0 1006 init_state)
   \<and> length (sockets (fire 1 False (step reject_all (Tick 3000) (handleClose 0 1006 init_state))))
         = 1
   \<and> timers (handleClose 0 1000 init_state) = []"
proof -
  have f: "fresh_timers init_state"
    by (simp add: fresh_timers_def init_state_def)
  have i: "next_tid init_state = 1" "now init_state = 0" "timers init_state = []"
    "sockets init_state = []"
    by (simp_all add: init_state_def)
  have a: "(1006::nat) \<noteq> 1000 \<and> (1006::nat) \<noteq> 1001" by simp
  show ?thesis
    using f close_schedules_one_reconnect [OF f, of 1006 0 reject_all]
      close_schedules_one_reconnect [OF f, of 1000 0 reject_all]
    by (simp add: i)
qed

subsection \<open>An exception while connecting\<close>

lemma connect_throws:
  "connectWebSocket_try b c s = Inl e \<Longrightarrow> b"
  by (simp add: connectWebSocket_try_def Let_def split: if_splits)

lemma connect_catch:
  "connectWebSocket True c s = setTimeout_reconnect 5000 c s"
  by (simp add: connectWebSocket_def connectWebSocket_try_def)

lemma store_setTimeout:
  "user (setTimeout_reconnect d c s) = user s"
  "account (setTimeout_reconnect d c s) = account s"
  "overview (setTimeout_reconnect d c s) = overview s"
  "singleton (setTimeout_reconnect d c s) = singleton s"
  "wsRef (setTimeout_reconnect d c s) = wsRef s"
  by (simp_all add: setTimeout_reconnect_def upd_closure_def)

lemma setTimeout_fires_once:
  assumes "fresh_timers s"
  shows "d < d0 \<Longrightarrow> fire (next_tid s) b (step parse (Tick d) (setTimeout_reconnect d0 c s))
            = step parse (Tick d) (setTimeout_reconnect d0 c s)"
    and "d0 \<le> d \<Longrightarrow> fire (next_tid s) b (step parse (Tick d) (setTimeout_reconnect d0 c s))
            = connectWebSocket b c
                (clearTimeout (next_tid s) (step parse (Tick d) (setTimeout_reconnect d0 c s)))"
    and "fire (next_tid s) b' (fire (next_tid s) b (step parse (Tick d) (setTimeout_reconnect d0 c s)))
            = fire (next_tid s) b (step parse (Tick d) (setTimeout_reconnect d0 c s))"
proof -
  let ?T = "\<lparr>tid = next_tid s, due = now s + d0, owner = c\<rparr>"
  let ?s' = "step parse (Tick d) (setTimeout_reconnect d0 c s)"
  have fnd: "find (\<lambda>x. tid x = next_tid s) (timers ?s') = Some ?T"
    using find_new_timer [OF assms] by (simp add: timers_setTimeout)
  have nw: "now ?s' = now s + d" by (simp add: now_setTimeout)
  show "d < d0 \<Longrightarrow> fire (next_tid s) b ?s' = ?s'"
    using fnd nw by (simp add: fire_early)
  show "d0 \<le> d \<Longrightarrow> fire (next_tid s) b ?s' = connectWebSocket b c (clearTimeout (next_tid s) ?s')"
    using fire_due [OF fnd, of b] nw by simp
  have "next_tid s < next_tid ?s'" by (simp add: next_tid_setTimeout)
  then show "fire (next_tid s) b' (fire (next_tid s) b ?s') = fire (next_tid s) b ?s'"
    by (rule fire_twice)
qed

text \<open>
  Claim C3, as stated, fails: the retry that the \<open>catch\<close> clause schedules is due after
  5000 ms, the reconnect after an abnormal close after 3000 ms. Both are shown from the
  same state, at the same time.
\<close>

theorem connect_exception_counterexample:
  "timers (connectWebSocket True 0 (effect False init_state))
     = [\<lparr>tid = 1, due = 5000, owner = 0\<rparr>]
   \<and> timers (handleClose 0 1006 (effect False init_state))
     = [\<lparr>tid = 1, due = 3000, owner = 0\<rparr>]
   \<and> due (hd (timers (connectWebSocket True 0 (effect False init_state))))
     \<noteq> due (hd (timers (handleClose 0 1006 (effect False init_state))))"
  by (simp add: handleClose_def setTimeout_reconnect_def closure_ws_def effect_def created_def
        init_state_def upd_closure_def upd_sock_def connectWebSocket_def
        connectWebSocket_try_def Let_def)

text \<open>
  Claim C3, amended. An exception thrown while the connection is established is caught
  in \<open>connectWebSocket\<close>: the function returns, one retry is scheduled, due 5000 ms from
  now (the abnormal close uses 3000 ms), no socket is created, and the singleton and the
  session store are unchanged. The retry cannot fire before it is due, fires once, and
  then makes one connection attempt.
\<close>

theorem connect_exception_schedules_retry:
  assumes "connectWebSocket_try throws c s = Inl e" and "fresh_timers s"
  shows "timers (connectWebSocket throws c s) =
           timers s @ [\<lparr>tid = next_tid s, due = now s + 5000, owner = c\<rparr>]
       \<and> sockets (connectWebSocket throws c s) = sockets s
       \<and> singleton (connectWebSocket throws c s) = singleton s
       \<and> user (connectWebSocket throws c s) = user s
       \<and> account (connectWebSocket throws c s) = account s
       \<and> overview (connectWebSocket throws c s) = overview s
       \<and> (\<forall>d b. d < 5000 \<longrightarrow>
             fire (next_tid s) b (step parse (Tick d) (connectWebSocket throws c s))
               = step parse (Tick d) (connectWebSocket throws c s))
       \<and> (\<forall>d. 5000 \<le> d \<longrightarrow>
             length (sockets (fire (next_tid s) False
                (step parse (Tick d) (connectWebSocket throws c s)))) = Suc (length (sockets s)))
       \<and> (\<forall>d b b'.
             fire (next_tid s) b' (fire (next_tid s) b
                (step parse (Tick d) (connectWebSocket throws c s)))
               = fire (next_tid s) b (step parse (Tick d) (connectWebSocket throws c s)))"
proof -
  have t: "throws" using assms(1) by (rule connect_throws)
  have eq: "connectWebSocket throws c s = setTimeout_reconnect 5000 c s"
    using t by (simp add: connect_catch)
  have late: "length (sockets (fire (next_tid s) False
         (step parse (Tick d) (setTimeout_reconnect 5000 c s)))) = Suc (length (sockets s))"
    if "5000 \<le> d" for d
  proof -
    have "fire (next_tid s) False (step parse (Tick d) (setTimeout_reconnect 5000 c s))
            = connectWebSocket False c
                (clearTimeout (next_tid s) (step parse (Tick d) (setTimeout_reconnect 5000 c s)))"
      using that by (rule setTimeout_fires_once(2) [OF assms(2)])
    then show ?thesis
      by (simp add: sockets_connect clearTimeout_def sockets_setTimeout)
  qed
  show ?thesis
    unfolding eq
    using setTimeout_fires_once(1) [OF assms(2), of _ 5000 _ parse c]
      setTimeout_fires_once(3) [OF assms(2), of _ _ parse _ 5000 c] late
    by (simp add: timers_setTimeout sockets_setTimeout store_setTimeout)
qed

theorem connect_exception_schedules_retry_witness:
  "connectWebSocket_try True 0 init_state = Inl SyntaxError
   \<and> fresh_timers init_state
   \<and> timers (connectWebSocket True 0 init_state) = [\<lparr>tid = 1, due = 5000, owner = 0\<rparr>]
   \<and> sockets (connectWebSocket True 0 init_state) = []"
proof -
  have a: "connectWebSocket_try True 0 init_state = Inl SyntaxError"
    by (simp add: connectWebSocket_try_def)
  have f: "fresh_timers init_state"
    by (simp add: fresh_timers_def init_state_def)
  have i: "next_tid init_state = 1" "now init_state = 0" "timers init_state = []"
    "sockets init_state = []"
    by (simp_all add: init_state_def)
  show ?thesis
    using a f connect_exception_schedules_retry [OF a f, of reject_all]
    by (simp add: i)
qed

subsection \<open>Teardown\<close>

lemma cleanup_sockets: "sockets (cleanup c s) = sockets s"
  by (simp add: cleanup_def clearTimeout_def split: option.splits)

text \<open>
  Claim C6, as stated, fails. After the unmount the socket is still open and its four
  listeners are still attached; and a timer that an earlier run of the effect set is still
  pending after the cleanup of the latest run.
\<close>

theorem teardown_counterexample:
  "sock_state (run reject_all [Mount False, Sock 0 Opened, Unmount] init_state) 0 = Some OPEN
   \<and> listeners (sockets (run reject_all [Mount False, Sock 0 Opened, Unmount] init_state) ! 0)
       = [(EvOpen, 0), (EvMessage, 0), (EvClose, 0), (EvError, 0)]
   \<and> timers (run reject_all [Mount False, Reinit False, Sock 0 (Closed 1006), Unmount] init_state)
       = [\<lparr>tid = 1, due = 3000, owner = 0\<rparr>]"
  by (simp add: run_def init_state_def effect_def created_def connectWebSocket_def
        connectWebSocket_try_def upd_closure_def upd_sock_def cleanup_def closure_timer_def
        sock_state_def dispatch_def listeners_for_def set_ready_def handleOpen_def ws_send_def
        handleClose_def setTimeout_reconnect_def
        closure_ws_def clearTimeout_def Let_def)

text \<open>
  Claim C6, amended. The cleanup of a run of the effect cancels the timer whose handle is
  in that run's \<open>reconnectTimer\<close>, so that it can no longer fire, and does nothing when
  there is none; it does not close the connection: every socket keeps its ready state and
  the singleton is unchanged.
\<close>

theorem cleanup_cancels_own_timer:
  "map readyState (sockets (cleanup c s)) = map readyState (sockets s)
   \<and> singleton (cleanup c s) = singleton s
   \<and> (\<forall>t. closure_timer s c = Some t \<longrightarrow>
         find (\<lambda>x. tid x = t) (timers (cleanup c s)) = None
       \<and> (\<forall>b. fire t b (cleanup c s) = cleanup c s))
   \<and> (closure_timer s c = None \<longrightarrow> cleanup c s = s)"
  by (simp add: cleanup_def clearTimeout_def find_filter_none fire_absent split: option.splits)

theorem cleanup_cancels_own_timer_witness:
  "closure_timer (run reject_all [Mount False, Sock 0 (Closed 1006)] init_state) 0 = Some 1
   \<and> timers (run reject_all [Mount False, Sock 0 (Closed 1006)] init_state)
       = [\<lparr>tid = 1, due = 3000, owner = 0\<rparr>]
   \<and> find (\<lambda>x. tid x = 1)
        (timers (cleanup 0 (run reject_all [Mount False, Sock 0 (Closed 1006)] init_state))) = None
   \<and> closure_timer init_state 0 = None \<and> cleanup 0 init_state = init_state"
proof -
  let ?s = "run reject_all [Mount False, Sock 0 (Closed 1006)] init_state"
  have a: "closure_timer ?s 0 = Some 1" and b: "timers ?s = [\<lparr>tid = 1, due = 3000, owner = 0\<rparr>]"
    by (simp_all add: run_def init_state_def effect_def created_def connectWebSocket_def
        connectWebSocket_try_def upd_closure_def upd_sock_def closure_timer_def
        sock_state_def dispatch_def listeners_for_def set_ready_def
        handleClose_def setTimeout_reconnect_def closure_ws_def Let_def)
  have c: "closure_timer init_state 0 = None"
    by (simp add: closure_timer_def init_state_def)
  show ?thesis
    using a b c cleanup_cancels_own_timer [of 0 ?s] cleanup_cancels_own_timer [of 0 init_state]
    by simp
qed

subsection \<open>Inbound frames\<close>

lemma ws_send_open:
  assumes "sock_state s i = Some OPEN"
  shows "ws_send (Some i) m s = (None, upd_sock i (\<lambda>k. k\<lparr>outbox := outbox k @ [m]\<rparr>) s)"
  using assms by (simp add: ws_send_def)

lemma sock_state_store [simp]:
  "sock_state (s\<lparr>user := u\<rparr>) i = sock_state s i"
  "sock_state (s\<lparr>account := a\<rparr>) i = sock_state s i"
  "sock_state (s\<lparr>overview := v\<rparr>) i = sock_state s i"
  "sock_state (s\<lparr>toasts := ts\<rparr>) i = sock_state s i"
  by (simp_all add: sock_state_def)

lemma closure_ws_store [simp]:
  "closure_ws (s\<lparr>user := u\<rparr>) c = closure_ws s c"
  "closure_ws (s\<lparr>account := a\<rparr>) c = closure_ws s c"
  "closure_ws (s\<lparr>overview := v\<rparr>) c = closure_ws s c"
  "closure_ws (s\<lparr>toasts := ts\<rparr>) c = closure_ws s c"
  by (simp_all add: closure_ws_def)

lemma upd_sock_fields [simp]:
  "user (upd_sock i f s) = user s"
  "account (upd_sock i f s) = account s"
  "overview (upd_sock i f s) = overview s"
  "toasts (upd_sock i f s) = toasts s"
  "timers (upd_sock i f s) = timers s"
  "singleton (upd_sock i f s) = singleton s"
  by (simp_all add: upd_sock_def)

lemma sockets_upd_sock:
  "sockets (upd_sock i f s) = (if i < length (sockets s) then (sockets s)[i := f (sockets s ! i)] else sockets s)"
  by (simp add: upd_sock_def)

lemma sock_state_Some_lt: "sock_state s i = Some r \<Longrightarrow> i < length (sockets s)"
  by (simp add: sock_state_def split: if_splits)

lemma get_prop_nonnull:
  "v \<noteq> JUndefined \<Longrightarrow> v \<noteq> JNull \<Longrightarrow> \<exists>w. get_prop v k = Inr w"
  by (cases v) simp_all

lemmas run_simps = run_def init_state_def effect_def created_def connectWebSocket_def
  connectWebSocket_try_def upd_closure_def upd_sock_def cleanup_def closure_timer_def
  sock_state_def dispatch_def listeners_for_def set_ready_def handleOpen_def ws_send_def
  handleClose_def setTimeout_reconnect_def closure_ws_def clearTimeout_def fire_def Let_def

lemma opened_eq:
  "opened = \<lparr>singleton = Some 0, user = JNull, account = JNull, overview = JNull,
      wsRef = Some 0, closures = [\<lparr>reconnectTimer = None, ws = Some 0\<rparr>],
      sockets = [\<lparr>readyState = OPEN,
                  listeners = [(EvOpen, 0), (EvMessage, 0), (EvClose, 0), (EvError, 0)],
                  outbox = [Bootstrap ''default'' 10000]\<rparr>],
      timers = [], next_tid = 1, now = 0, toasts = []\<rparr>"
  by (simp add: opened_def run_simps)

text \<open>
  Claim C4. A \<open>bootstrap_ok\<close> frame handled on the open socket of the run: a \<open>user\<close>
  (\<open>account\<close>) field that holds a user (account) object, or any other truthy value,
  becomes the store's user (account); an absent field, and a field whose value is falsy,
  leaves the store's field as it was; the overview is untouched; and exactly one
  \<open>get_snapshot\<close> is appended to the outbox of that socket, nothing else is sent.
\<close>

theorem bootstrap_ok_sets_store:
  assumes "parse d = Some (JObj kvs)"
    and "map_of kvs ''type'' = Some (JStr ''bootstrap_ok'')"
    and "closure_ws s c = Some i"
    and "sock_state s i = Some OPEN"
  shows "(\<forall>u. map_of kvs ''user'' = Some u \<and> truthy u \<longrightarrow>
            user (handleMessage parse c (Text d) s) = u)
       \<and> (\<forall>a. map_of kvs ''account'' = Some a \<and> truthy a \<longrightarrow>
            account (handleMessage parse c (Text d) s) = a)
       \<and> (\<forall>u. map_of kvs ''user'' = Some u \<and> \<not> truthy u \<longrightarrow>
            user (handleMessage parse c (Text d) s) = user s)
       \<and> (\<forall>a. map_of kvs ''account'' = Some a \<and> \<not> truthy a \<longrightarrow>
            account (handleMessage parse c (Text d) s) = account s)
       \<and> (map_of kvs ''user'' = None \<longrightarrow> user (handleMessage parse c (Text d) s) = user s)
       \<and> (map_of kvs ''account'' = None \<longrightarrow>
            account (handleMessage parse c (Text d) s) = account s)
       \<and> overview (handleMessage parse c (Text d) s) = overview s
       \<and> sockets (handleMessage parse c (Text d) s) =
            (sockets s)[i := (sockets s ! i)\<lparr>outbox := outbox (sockets s ! i) @ [GetSnapshot]\<rparr>]"
proof -
  have lt: "i < length (sockets s)" using assms(4) by (rule sock_state_Some_lt)
  show ?thesis
    using assms lt
    by (simp add: handleMessage_def handleMessage_try_def jsprop_def Let_def ws_send_open
          sockets_upd_sock)
qed

theorem bootstrap_ok_sets_store_witness:
  "sample_parse ''{type:bootstrap_ok,user:{id:1,username:default},account:{id:7}}''
     = Some (JObj [(''type'', JStr ''bootstrap_ok''),
               (''user'', JObj [(''id'', JNum 1), (''username'', JStr ''default'')]),
               (''account'', JObj [(''id'', JNum 7)])])
   \<and> closure_ws opened 0 = Some 0 \<and> sock_state opened 0 = Some OPEN
   \<and> user (handleMessage sample_parse 0
        (Text ''{type:bootstrap_ok,user:{id:1,username:default},account:{id:7}}'') opened)
       = JObj [(''id'', JNum 1), (''username'', JStr ''default'')]
   \<and> account (handleMessage sample_parse 0
        (Text ''{type:bootstrap_ok,user:{id:1,username:default},account:{id:7}}'') opened)
       = JObj [(''id'', JNum 7)]
   \<and> map outbox (sockets (handleMessage sample_parse 0
        (Text ''{type:bootstrap_ok,user:{id:1,username:default},account:{id:7}}'') opened))
       = [[Bootstrap ''default'' 10000, GetSnapshot]]"
proof -
  let ?d = "''{type:bootstrap_ok,user:{id:1,username:default},account:{id:7}}''"
  let ?kvs = "[(''type'', JStr ''bootstrap_ok''),
               (''user'', JObj [(''id'', JNum 1), (''username'', JStr ''default'')]),
               (''account'', JObj [(''id'', JNum 7)])]"
  have p: "sample_parse ?d = Some (JObj ?kvs)"
    by (simp add: sample_parse_def sample_frames_def)
  have ty: "map_of ?kvs ''type'' = Some (JStr ''bootstrap_ok'')" by simp
  have w: "closure_ws opened 0 = Some 0" by (simp add: opened_eq closure_ws_def)
  have o: "sock_state opened 0 = Some OPEN" by (simp add: opened_eq sock_state_def)
  have sk: "sockets opened = [\<lparr>readyState = OPEN,
                  listeners = [(EvOpen, 0), (EvMessage, 0), (EvClose, 0), (EvError, 0)],
                  outbox = [Bootstrap ''default'' 10000]\<rparr>]"
    by (simp add: opened_eq)
  show ?thesis
    using p w o bootstrap_ok_sets_store [of sample_parse ?d ?kvs opened 0 0, OF p ty w o]
    by (simp add: sk)
qed

text \<open>
  Claim C5, as stated, fails for a frame that parses and has a recognised type but not the
  structure of that type: a \<open>snapshot\<close> frame without \<open>overview\<close> replaces the overview
  in the store by \<open>undefined\<close>.
\<close>

theorem malformed_frame_counterexample:
  "overview (run sample_parse
      [Mount False, Sock 0 Opened,
       Sock 0 (Message (Text ''{type:snapshot,overview:{total_assets:10000,positions_value:0}}''))]
      init_state)
     = JObj [(''total_assets'', JNum 10000), (''positions_value'', JNum 0)]
   \<and> overview (run sample_parse
      [Mount False, Sock 0 Opened,
       Sock 0 (Message (Text ''{type:snapshot,overview:{total_assets:10000,positions_value:0}}'')),
       Sock 0 (Message (Text ''{type:snapshot}''))]
      init_state)
     = JUndefined"
  by (simp add: run_simps handleMessage_def handleMessage_try_def jsprop_def sample_parse_def
        sample_frames_def)

text \<open>
  Claim C5, amended. A frame that is not text, or does not parse, or parses to a value
  whose \<open>type\<close> cannot be read or is none of the seven recognised ones, is discarded:
  the handler returns and the whole state (session store, sockets, timers,
  notifications) is as before. Frames of a recognised type are not validated.
\<close>

theorem unrecognised_frame_discarded:
  assumes "\<not> known_type parse e"
  shows "handleMessage parse c e s = s"
proof (cases e)
  case Binary
  then show ?thesis by (simp add: handleMessage_def handleMessage_try_def)
next
  case (Text d)
  show ?thesis
  proof (cases "parse d")
    case None
    then show ?thesis using Text by (simp add: handleMessage_def handleMessage_try_def)
  next
    case (Some msg)
    show ?thesis
    proof (cases "get_prop msg ''type''")
      case (Inl x)
      then show ?thesis using Text Some by (simp add: handleMessage_def handleMessage_try_def)
    next
      case (Inr ty)
      then have "\<not> recognised ty" using assms Text Some by (simp add: known_type_def)
      then show ?thesis using Text Some Inr
        by (simp add: handleMessage_def handleMessage_try_def recognised_def)
    qed
  qed
qed

theorem unrecognised_frame_discarded_witness:
  "\<not> known_type sample_parse Binary
   \<and> \<not> known_type sample_parse (Text ''not json'')
   \<and> \<not> known_type sample_parse (Text ''null'')
   \<and> \<not> known_type sample_parse (Text ''{type:price_tick}'')
   \<and> handleMessage sample_parse 0 Binary opened = opened
   \<and> handleMessage sample_parse 0 (Text ''not json'') opened = opened
   \<and> handleMessage sample_parse 0 (Text ''null'') opened = opened
   \<and> handleMessage sample_parse 0 (Text ''{type:price_tick}'') opened = opened"
proof -
  have a: "\<not> known_type sample_parse Binary" by (simp add: known_type_def)
  have b: "\<not> known_type sample_parse (Text ''not json'')"
    by (simp add: known_type_def sample_parse_def sample_frames_def)
  have c: "\<not> known_type sample_parse (Text ''null'')"
    by (simp add: known_type_def sample_parse_def sample_frames_def)
  have d: "\<not> known_type sample_parse (Text ''{type:price_tick}'')"
    by (simp add: known_type_def sample_parse_def sample_frames_def recognised_def)
  show ?thesis
    using a b c d unrecognised_frame_discarded [OF a, of 0 opened]
      unrecognised_frame_discarded [OF b, of 0 opened]
      unrecognised_frame_discarded [OF c, of 0 opened]
      unrecognised_frame_discarded [OF d, of 0 opened]
    by simp
qed

text \<open>
  Claim C8. A \<open>user_switched\<close> frame whose \<open>user\<close> is present (neither missing nor
  \<open>null\<close>) replaces the store's user by it and leaves account and overview as they were;
  an \<open>account_switched\<close> frame does the same for the account.
\<close>

theorem switched_replaces_identity:
  assumes "parse d = Some (JObj kvs)"
  shows "(\<forall>u. map_of kvs ''type'' = Some (JStr ''user_switched'')
              \<and> map_of kvs ''user'' = Some u \<and> u \<noteq> JNull \<and> u \<noteq> JUndefined \<longrightarrow>
            user (handleMessage parse c (Text d) s) = u
          \<and> account (handleMessage parse c (Text d) s) = account s
          \<and> overview (handleMessage parse c (Text d) s) = overview s)
       \<and> (\<forall>a. map_of kvs ''type'' = Some (JStr ''account_switched'')
              \<and> map_of kvs ''account'' = Some a \<and> a \<noteq> JNull \<and> a \<noteq> JUndefined \<longrightarrow>
            account (handleMessage parse c (Text d) s) = a
          \<and> user (handleMessage parse c (Text d) s) = user s
          \<and> overview (handleMessage parse c (Text d) s) = overview s)"
proof (intro conjI allI impI)
  fix u
  assume h: "map_of kvs ''type'' = Some (JStr ''user_switched'')
              \<and> map_of kvs ''user'' = Some u \<and> u \<noteq> JNull \<and> u \<noteq> JUndefined"
  then obtain w where w: "get_prop u ''username'' = Inr w"
    using get_prop_nonnull by blast
  have r: "handleMessage parse c (Text d) s = (toast_add (ToastSuccess (SwitchedTo w)) s)\<lparr>user := u\<rparr>"
    using assms h w by (simp add: handleMessage_def handleMessage_try_def jsprop_def)
  show "user (handleMessage parse c (Text d) s) = u"
    and "account (handleMessage parse c (Text d) s) = account s"
    and "overview (handleMessage parse c (Text d) s) = overview s"
    by (simp_all add: r toast_add_def)
next
  fix a
  assume h: "map_of kvs ''type'' = Some (JStr ''account_switched'')
              \<and> map_of kvs ''account'' = Some a \<and> a \<noteq> JNull \<and> a \<noteq> JUndefined"
  then obtain w where w: "get_prop a ''name'' = Inr w"
    using get_prop_nonnull by blast
  have r: "handleMessage parse c (Text d) s = (toast_add (ToastSuccess (SwitchedTo w)) s)\<lparr>account := a\<rparr>"
    using assms h w by (simp add: handleMessage_def handleMessage_try_def jsprop_def)
  show "account (handleMessage parse c (Text d) s) = a"
    and "user (handleMessage parse c (Text d) s) = user s"
    and "overview (handleMessage parse c (Text d) s) = overview s"
    by (simp_all add: r toast_add_def)
qed

theorem switched_replaces_identity_witness:
  "user (handleMessage sample_parse 0
      (Text ''{type:user_switched,user:{id:2,username:alice}}'') opened)
     = JObj [(''id'', JNum 2), (''username'', JStr ''alice'')]
   \<and> overview (handleMessage sample_parse 0
      (Text ''{type:user_switched,user:{id:2,username:alice}}'') opened) = overview opened
   \<and> account (handleMessage sample_parse 0
      (Text ''{type:account_switched,account:{id:8,name:main}}'') opened)
     = JObj [(''id'', JNum 8), (''name'', JStr ''main'')]
   \<and> overview (handleMessage sample_parse 0
      (Text ''{type:account_switched,account:{id:8,name:main}}'') opened) = overview opened"
proof -
  let ?d = "''{type:user_switched,user:{id:2,username:alice}}''"
  let ?kvs = "[(''type'', JStr ''user_switched''),
               (''user'', JObj [(''id'', JNum 2), (''username'', JStr ''alice'')])]"
  let ?d' = "''{type:account_switched,account:{id:8,name:main}}''"
  let ?kvs' = "[(''type'', JStr ''account_switched''),
               (''account'', JObj [(''id'', JNum 8), (''name'', JStr ''main'')])]"
  have p: "sample_parse ?d = Some (JObj ?kvs)"
    by (simp add: sample_parse_def sample_frames_def)
  have p': "sample_parse ?d' = Some (JObj ?kvs')"
    by (simp add: sample_parse_def sample_frames_def)
  show ?thesis
    using switched_replaces_identity [of sample_parse ?d ?kvs 0 opened, OF p]
      switched_replaces_identity [of sample_parse ?d' ?kvs' 0 opened, OF p']
    by simp
qed

text \<open>
  Claim C9. A \<open>user_switched\<close> frame without \<open>user\<close>, and an \<open>account_switched\<close>
  frame without \<open>account\<close>: reading \<open>username\<close> (\<open>name\<close>) of \<open>undefined\<close> throws a
  TypeError inside the \<open>try\<close> block, before the notification and the setter; the
  handler catches it and returns with the state unchanged, so the store is as before and
  the socket is still open.
\<close>

theorem switched_without_payload_contained:
  assumes "parse d = Some (JObj kvs)"
  shows "(map_of kvs ''type'' = Some (JStr ''user_switched'') \<and> map_of kvs ''user'' = None \<longrightarrow>
            handleMessage_try parse c (Text d) s = (Some TypeError, s)
          \<and> handleMessage parse c (Text d) s = s)
       \<and> (map_of kvs ''type'' = Some (JStr ''account_switched'') \<and> map_of kvs ''account'' = None \<longrightarrow>
            handleMessage_try parse c (Text d) s = (Some TypeError, s)
          \<and> handleMessage parse c (Text d) s = s)"
  using assms by (simp add: handleMessage_def handleMessage_try_def jsprop_def)

theorem switched_without_payload_contained_witness:
  "handleMessage_try sample_parse 0 (Text ''{type:user_switched}'') opened
     = (Some TypeError, opened)
   \<and> handleMessage sample_parse 0 (Text ''{type:user_switched}'') opened = opened
   \<and> handleMessage sample_parse 0 (Text ''{type:account_switched}'') opened = opened
   \<and> sock_state opened 0 = Some OPEN"
proof -
  have p: "sample_parse ''{type:user_switched}'' = Some (JObj [(''type'', JStr ''user_switched'')])"
    by (simp add: sample_parse_def sample_frames_def)
  have p': "sample_parse ''{type:account_switched}''
              = Some (JObj [(''type'', JStr ''account_switched'')])"
    by (simp add: sample_parse_def sample_frames_def)
  have o: "sock_state opened 0 = Some OPEN" by (simp add: opened_eq sock_state_def)
  show ?thesis
    using o
      switched_without_payload_contained
        [of sample_parse "''{type:user_switched}''" "[(''type'', JStr ''user_switched'')]" 0 opened,
         OF p]
      switched_without_payload_contained
        [of sample_parse "''{type:account_switched}''"
            "[(''type'', JStr ''account_switched'')]" 0 opened, OF p']
    by simp
qed

subsection \<open>Outbound intents while disconnected\<close>

text \<open>
  Claim C7, as stated, fails for the \<open>get_snapshot\<close> intent of \<open>handleAccountUpdated\<close>:
  issued while the socket is still connecting, it is dropped and no notification is
  shown.
\<close>

theorem send_while_disconnected_counterexample:
  "\<not> ref_open (run reject_all [Mount False] init_state)
   \<and> toasts (run reject_all [Mount False, AccountUpdated] init_state) = []"
  by (simp add: run_simps ref_open_def handleAccountUpdated_def)

text \<open>
  Claim C7, amended. While no connection is open, \<open>switchUser\<close> shows the error
  notification "Not connected to server" and changes nothing else, and
  \<open>handleAccountUpdated\<close> changes nothing at all: in both cases the intent is dropped
  (no part of the state keeps it, no outbox grows) and the function returns normally.
\<close>

theorem send_while_disconnected_dropped:
  assumes "\<not> ref_open s"
  shows "switchUser username s = s\<lparr>toasts := toasts s @ [ToastError (Lit ''Not connected to server'')]\<rparr>
       \<and> handleAccountUpdated s = s"
  using assms by (simp add: switchUser_def handleAccountUpdated_def toast_add_def)

theorem send_while_disconnected_dropped_witness:
  "\<not> ref_open (run reject_all [Mount False] init_state)
   \<and> toasts (switchUser ''alice'' (run reject_all [Mount False] init_state))
       = [ToastError (Lit ''Not connected to server'')]
   \<and> sockets (switchUser ''alice'' (run reject_all [Mount False] init_state))
       = sockets (run reject_all [Mount False] init_state)
   \<and> handleAccountUpdated (run reject_all [Mount False] init_state)
       = run reject_all [Mount False] init_state"
proof -
  let ?s = "run reject_all [Mount False] init_state"
  have a: "\<not> ref_open ?s" by (simp add: run_simps ref_open_def)
  have t: "toasts ?s = []" by (simp add: run_simps)
  show ?thesis
    using a send_while_disconnected_dropped [OF a, of "''alice''"]
    by (simp add: t)
qed

subsection \<open>The number of connections\<close>

text \<open>
  A run of the effect that finds a singleton that is connecting or open reuses it: no
  socket is created and no timer is set.
\<close>

lemma effect_reuses_live_singleton:
  assumes "\<not> created s"
  shows "sockets (effect b s) = sockets s \<and> singleton (effect b s) = singleton s
       \<and> wsRef (effect b s) = singleton s \<and> timers (effect b s) = timers s"
  using assms by (simp add: effect_def Let_def)

text \<open>
  Claim C2 does not hold of the code. First scenario: the component is mounted and
  re-initialised (the second run of the effect reuses socket 0, whose handlers belong to
  the first run); socket 0 closes with code 1006, so the first run's \<open>handleClose\<close> sets a
  timer; the component is re-initialised again within 3 seconds (the cleanup of the
  second run has no timer to cancel, the third run finds no singleton and opens
  socket 1); the timer fires and the first run's \<open>connectWebSocket\<close> opens socket 2.
  Sockets 1 and 2 are both connecting. Second scenario: the re-initialisation finds
  socket 0 closing and opens socket 1; the close event of socket 0 then clears the
  singleton and sets a timer, which opens socket 2.
\<close>

theorem duplicate_connection_after_reinit:
  "map readyState (sockets (run reject_all
      [Mount False, Reinit False, Sock 0 (Closed 1006), Reinit False, Tick 3000, Fire 1 False]
      init_state)) = [CLOSED, CONNECTING, CONNECTING]
   \<and> inflight (run reject_all
      [Mount False, Reinit False, Sock 0 (Closed 1006), Reinit False, Tick 3000, Fire 1 False]
      init_state) = 2
   \<and> inflight (run reject_all
      [Mount False, Sock 0 Opened, Closing 0, Reinit False, Sock 0 (Closed 1011), Tick 3000,
       Fire 1 False] init_state) = 2"
  by (simp add: run_simps inflight_def live_def)

subsection \<open>What every event preserves\<close>

lemma upd_sock_frame:
  "next_tid (upd_sock i f s) = next_tid s" "now (upd_sock i f s) = now s"
  "closures (upd_sock i f s) = closures s" "wsRef (upd_sock i f s) = wsRef s"
  by (simp_all add: upd_sock_def)

lemma ws_send_timers:
  "timers (snd (ws_send tg m s)) = timers s \<and> next_tid (snd (ws_send tg m s)) = next_tid s"
  by (simp add: ws_send_def upd_sock_frame split: option.splits readyState.splits)

lemma listeners_upd_outbox:
  "map listeners (sockets (upd_sock i (\<lambda>k. k\<lparr>outbox := g k\<rparr>) s)) = map listeners (sockets s)"
  by (simp add: upd_sock_def map_update list_update_same_conv)

lemma listeners_upd_ready:
  "map listeners (sockets (upd_sock i (\<lambda>k. k\<lparr>readyState := r\<rparr>) s)) = map listeners (sockets s)"
  by (simp add: upd_sock_def map_update list_update_same_conv)

lemma ws_send_listeners:
  "map listeners (sockets (snd (ws_send tg m s))) = map listeners (sockets s)"
  by (simp add: ws_send_def listeners_upd_outbox split: option.splits readyState.splits)

lemma own_listeners_map:
  "own_listeners s = list_all (\<lambda>l. l = four_handlers (case l of [] \<Rightarrow> 0 | x # _ \<Rightarrow> snd x))
      (map listeners (sockets s))"
  by (simp add: own_listeners_def creator_def list_all_iff)

lemma own_listeners_cong:
  "map listeners (sockets s') = map listeners (sockets s) \<Longrightarrow> own_listeners s' = own_listeners s"
  by (simp add: own_listeners_map)

lemma fresh_cong:
  "timers s' = timers s \<Longrightarrow> next_tid s' = next_tid s \<Longrightarrow> fresh_timers s' = fresh_timers s"
  by (simp add: fresh_timers_def)

lemma handleMessage_try_frame:
  "timers (snd (handleMessage_try parse c e s)) = timers s
   \<and> next_tid (snd (handleMessage_try parse c e s)) = next_tid s
   \<and> map listeners (sockets (snd (handleMessage_try parse c e s))) = map listeners (sockets s)"
  by (simp add: handleMessage_try_def Let_def ws_send_timers ws_send_listeners toast_add_def
        split: frame.splits option.splits sum.splits)


lemma fresh_setTimeout: "fresh_timers s \<Longrightarrow> fresh_timers (setTimeout_reconnect d c s)"
  by (auto simp add: fresh_timers_def timers_setTimeout next_tid_setTimeout list_all_iff less_Suc_eq)

lemma fresh_clearTimeout: "fresh_timers s \<Longrightarrow> fresh_timers (clearTimeout t s)"
  by (simp add: fresh_timers_def clearTimeout_def list_all_iff)

lemma listeners_setTimeout:
  "own_listeners (setTimeout_reconnect d c s) = own_listeners s"
  by (simp add: own_listeners_def sockets_setTimeout)

lemma listeners_clearTimeout: "own_listeners (clearTimeout t s) = own_listeners s"
  by (simp add: own_listeners_def clearTimeout_def)

lemma inv_setTimeout: "reachable_inv s \<Longrightarrow> reachable_inv (setTimeout_reconnect d c s)"
  by (simp add: reachable_inv_def fresh_setTimeout listeners_setTimeout)

lemma inv_clearTimeout: "reachable_inv s \<Longrightarrow> reachable_inv (clearTimeout t s)"
  by (simp add: reachable_inv_def fresh_clearTimeout listeners_clearTimeout)

lemma inv_ws_send: "reachable_inv (snd (ws_send tg m s)) = reachable_inv s"
  by (simp add: reachable_inv_def fresh_cong [of "snd (ws_send tg m s)" s]
        own_listeners_cong [of "snd (ws_send tg m s)" s] ws_send_timers ws_send_listeners)

lemma inv_handleMessage: "reachable_inv (handleMessage parse c e s) = reachable_inv s"
  unfolding handleMessage_def reachable_inv_def
  by (simp add: fresh_cong [of "snd (handleMessage_try parse c e s)" s]
        own_listeners_cong [of "snd (handleMessage_try parse c e s)" s] handleMessage_try_frame)

lemma inv_handleClose: "reachable_inv s \<Longrightarrow> reachable_inv (handleClose c code s)"
proof -
  assume a: "reachable_inv s"
  have b: "reachable_inv (s\<lparr>singleton := None\<rparr>)" "reachable_inv (s\<lparr>singleton := None, wsRef := None\<rparr>)"
    using a by (simp_all add: reachable_inv_def fresh_timers_def own_listeners_def)
  show ?thesis
    using b by (simp add: handleClose_def Let_def inv_setTimeout)
qed

lemma inv_handler: "reachable_inv s \<Longrightarrow> reachable_inv (handler parse ev c s)"
  by (cases ev) (simp_all add: handleOpen_def inv_ws_send inv_handleMessage inv_handleClose
        handleError_def)

lemma inv_fold_handler: "reachable_inv s \<Longrightarrow> reachable_inv (fold (handler parse ev) cs s)"
  by (induction cs arbitrary: s) (simp_all add: inv_handler)

lemma inv_dispatch: "reachable_inv s \<Longrightarrow> reachable_inv (dispatch parse i ev s)"
  by (simp add: dispatch_def inv_fold_handler)

lemma inv_set_ready: "reachable_inv (set_ready i r s) = reachable_inv s"
  by (simp add: reachable_inv_def set_ready_def
        fresh_cong [of "upd_sock i (\<lambda>k. k\<lparr>readyState := r\<rparr>) s" s]
        own_listeners_cong [of "upd_sock i (\<lambda>k. k\<lparr>readyState := r\<rparr>) s" s]
        listeners_upd_ready upd_sock_frame)

lemma inv_deliver: "reachable_inv s \<Longrightarrow> reachable_inv (deliver parse i ev s)"
  by (cases ev) (simp_all add: inv_dispatch inv_set_ready)

lemma inv_connect: "reachable_inv s \<Longrightarrow> reachable_inv (connectWebSocket b c s)"
proof (cases b)
  case True
  assume "reachable_inv s"
  then show ?thesis using True by (simp add: connect_catch inv_setTimeout)
next
  case False
  assume a: "reachable_inv s"
  have "fresh_timers (connectWebSocket b c s)"
    using a False
    by (simp add: reachable_inv_def fresh_timers_def timers_connect connectWebSocket_def
          connectWebSocket_try_def Let_def upd_sock_frame upd_closure_def)
  moreover have "own_listeners (connectWebSocket b c s)"
    using a False
    by (simp add: reachable_inv_def own_listeners_def sockets_connect four_handlers_def creator_def)
  ultimately show ?thesis by (simp add: reachable_inv_def)
qed

lemma inv_effect: "reachable_inv s \<Longrightarrow> reachable_inv (effect b s)"
proof -
  assume a: "reachable_inv s"
  have b: "\<And>cs. reachable_inv (s\<lparr>closures := cs\<rparr>)" "\<And>cs r. reachable_inv (s\<lparr>closures := cs, wsRef := r\<rparr>)"
    using a by (simp_all add: reachable_inv_def fresh_timers_def own_listeners_def)
  show ?thesis
    by (simp add: effect_def Let_def inv_connect b)
qed

lemma inv_cleanup: "reachable_inv s \<Longrightarrow> reachable_inv (cleanup c s)"
  by (simp add: cleanup_def inv_clearTimeout split: option.splits)

lemma inv_fire: "reachable_inv s \<Longrightarrow> reachable_inv (fire t b s)"
  by (simp add: fire_def inv_connect inv_clearTimeout split: option.splits)

lemma inv_toast: "reachable_inv (toast_add x s) = reachable_inv s"
  by (simp add: reachable_inv_def toast_add_def fresh_timers_def own_listeners_def)

lemma inv_switchUser: "reachable_inv s \<Longrightarrow> reachable_inv (switchUser u s)"
proof -
  assume a: "reachable_inv s"
  have "reachable_inv (snd (ws_send (wsRef s) (SwitchUser u) s))"
    using a by (simp add: inv_ws_send)
  then show ?thesis
    using a by (cases "ws_send (wsRef s) (SwitchUser u) s")
      (auto simp add: switchUser_def inv_toast split: option.splits)
qed

lemma inv_handleAccountUpdated: "reachable_inv s \<Longrightarrow> reachable_inv (handleAccountUpdated s)"
  by (simp add: handleAccountUpdated_def inv_ws_send)

lemma inv_step: "reachable_inv s \<Longrightarrow> reachable_inv (step parse ev s)"
proof (cases ev)
  case (Tick d)
  assume "reachable_inv s"
  then show ?thesis using Tick by (simp add: reachable_inv_def fresh_timers_def own_listeners_def)
qed (simp_all add: inv_effect inv_cleanup inv_deliver inv_set_ready inv_fire inv_switchUser
       inv_handleAccountUpdated)

lemma inv_run: "reachable_inv s \<Longrightarrow> reachable_inv (run parse evs s)"
  unfolding run_def by (induction evs arbitrary: s) (simp_all add: inv_step)

lemma inv_init: "reachable_inv init_state"
  by (simp add: reachable_inv_def fresh_timers_def own_listeners_def init_state_def)

text \<open>Every state that the component can reach has fresh timer handles.\<close>

lemma reachable_fresh_timers: "fresh_timers (run parse evs init_state)"
  using inv_run [OF inv_init] by (simp add: reachable_inv_def)

text \<open>
  A close event of a socket that is not yet closed calls \<open>handleClose\<close> exactly once, for
  the run that created the socket.
\<close>

lemma close_event_runs_handleClose_once:
  assumes "own_listeners s" and "i < length (sockets s)" and "sock_state s i \<noteq> Some CLOSED"
  shows "deliver parse i (Closed code) s
           = handleClose (creator (sockets s ! i)) code (set_ready i CLOSED s)"
proof -
  have l: "listeners (sockets s ! i) = four_handlers (creator (sockets s ! i))"
    using assms(1,2) by (simp add: own_listeners_def list_all_length)
  have "listeners_for (set_ready i CLOSED s) i EvClose = [creator (sockets s ! i)]"
    using assms(2) l by (simp add: listeners_for_def set_ready_def upd_sock_def four_handlers_def)
  then show ?thesis
    using assms(2,3) by (simp add: dispatch_def sock_state_def)
qed

subsection \<open>One mount, one connection\<close>

lemma live_le_unclosed:
  "length (filter live ks) \<le> length (filter (\<lambda>r. r \<noteq> CLOSED) (map readyState ks))"
  by (induction ks) (auto simp: live_def)

lemma inflight_le_pending: "inflight s \<le> pending s"
  using live_le_unclosed [of "sockets s"] by (simp add: inflight_def pending_def unclosed_def)

lemma filter_update_drop:
  "i < length xs \<Longrightarrow> P (xs ! i) \<Longrightarrow> \<not> P y \<Longrightarrow>
     Suc (length (filter P (xs[i := y]))) = length (filter P xs)"
proof (induction xs arbitrary: i)
  case Nil
  then show ?case by simp
next
  case (Cons x xs)
  then show ?case by (cases i) auto
qed

lemma filter_update_keep:
  "i < length xs \<Longrightarrow> P (xs ! i) \<Longrightarrow> P y \<Longrightarrow>
     length (filter P (xs[i := y])) = length (filter P xs)"
proof (induction xs arbitrary: i)
  case Nil
  then show ?case by simp
next
  case (Cons x xs)
  then show ?case by (cases i) auto
qed

lemma ready_set_ready:
  "map readyState (sockets (set_ready i r s)) =
     (if i < length (sockets s) then (map readyState (sockets s))[i := r]
      else map readyState (sockets s))"
  by (simp add: set_ready_def upd_sock_def map_update)

lemma timers_set_ready: "timers (set_ready i r s) = timers s"
  by (simp add: set_ready_def upd_sock_def)

lemma unclosed_close:
  assumes "i < length (sockets s)" "sock_state s i \<noteq> Some CLOSED"
  shows "Suc (unclosed (set_ready i CLOSED s)) = unclosed s"
  using assms filter_update_drop [of i "map readyState (sockets s)" "\<lambda>r. r \<noteq> CLOSED" CLOSED]
  by (simp add: unclosed_def ready_set_ready sock_state_def)

lemma unclosed_keep:
  assumes "i < length (sockets s)" "sock_state s i \<noteq> Some CLOSED" "r \<noteq> CLOSED"
  shows "unclosed (set_ready i r s) = unclosed s"
  using assms filter_update_keep [of i "map readyState (sockets s)" "\<lambda>r. r \<noteq> CLOSED" r]
  by (simp add: unclosed_def ready_set_ready sock_state_def)

lemma ready_upd_outbox:
  "map readyState (sockets (upd_sock i (\<lambda>k. k\<lparr>outbox := g k\<rparr>) s)) = map readyState (sockets s)"
  by (simp add: upd_sock_def map_update list_update_same_conv)

lemma ws_send_ready:
  "map readyState (sockets (snd (ws_send tg m s))) = map readyState (sockets s)"
  by (simp add: ws_send_def ready_upd_outbox split: option.splits readyState.splits)

lemma pending_ws_send: "pending (snd (ws_send tg m s)) = pending s"
  by (simp add: pending_def unclosed_def ws_send_ready ws_send_timers)

lemma handleMessage_try_ready:
  "map readyState (sockets (snd (handleMessage_try parse c e s))) = map readyState (sockets s)"
  by (simp add: handleMessage_try_def Let_def ws_send_ready toast_add_def
        split: frame.splits option.splits sum.splits)

lemma pending_handleMessage: "pending (handleMessage parse c e s) = pending s"
  by (simp add: pending_def unclosed_def handleMessage_def handleMessage_try_ready
        handleMessage_try_frame)

lemma pending_handleClose: "pending (handleClose c code s) \<le> Suc (pending s)"
  by (simp add: pending_def unclosed_def sockets_handleClose timers_handleClose)

lemma pending_connect: "pending (connectWebSocket b c s) = Suc (pending s)"
  by (simp add: pending_def unclosed_def sockets_connect timers_connect)

lemma pending_quiet_handler:
  "kind_of ev \<noteq> EvClose \<Longrightarrow> pending (handler parse ev c s) = pending s"
  by (cases ev) (simp_all add: handleOpen_def pending_ws_send pending_handleMessage handleError_def)

lemma pending_quiet_fold:
  "kind_of ev \<noteq> EvClose \<Longrightarrow> pending (fold (handler parse ev) cs s) = pending s"
  by (induction cs arbitrary: s) (simp_all add: pending_quiet_handler)

lemma pending_quiet_dispatch:
  "kind_of ev \<noteq> EvClose \<Longrightarrow> pending (dispatch parse i ev s) = pending s"
  by (simp add: dispatch_def pending_quiet_fold)

lemma sock_state_lt: "sock_state s i \<noteq> None \<Longrightarrow> i < length (sockets s)"
  by (simp add: sock_state_def split: if_splits)

lemma pending_deliver:
  assumes "own_listeners s"
  shows "pending (deliver parse i ev s) \<le> pending s"
proof (cases ev)
  case Opened
  show ?thesis
  proof (cases "sock_state s i = Some CONNECTING")
    case True
    then have "i < length (sockets s)" by (simp add: sock_state_lt)
    then have "unclosed (set_ready i OPEN s) = unclosed s"
      using True by (simp add: unclosed_keep)
    then have "pending (set_ready i OPEN s) = pending s"
      by (simp add: pending_def timers_set_ready)
    then show ?thesis
      using Opened True by (simp add: pending_quiet_dispatch)
  next
    case False
    then show ?thesis using Opened by simp
  qed
next
  case (Message e)
  then show ?thesis by (simp add: pending_quiet_dispatch)
next
  case (Closed code)
  show ?thesis
  proof (cases "sock_state s i \<noteq> None \<and> sock_state s i \<noteq> Some CLOSED")
    case True
    then have lt: "i < length (sockets s)" by (simp add: sock_state_lt)
    have "deliver parse i (Closed code) s
            = handleClose (creator (sockets s ! i)) code (set_ready i CLOSED s)"
      using assms lt True by (intro close_event_runs_handleClose_once) simp_all
    moreover have "Suc (pending (set_ready i CLOSED s)) = pending s"
      using unclosed_close [OF lt] True by (simp add: pending_def timers_set_ready)
    ultimately show ?thesis
      using Closed pending_handleClose [of "creator (sockets s ! i)" code "set_ready i CLOSED s"]
      by simp
  next
    case False
    then show ?thesis using Closed by auto
  qed
next
  case Errored
  then show ?thesis by (simp add: pending_quiet_dispatch)
qed

lemma find_Some_filter_less:
  "find P xs = Some x \<Longrightarrow> length (filter (\<lambda>y. \<not> P y) xs) < length xs"
proof (induction xs)
  case Nil
  then show ?case by simp
next
  case (Cons a xs)
  then show ?case
    by (cases "P a") (auto simp: less_Suc_eq_le)
qed

lemma pending_fire: "pending (fire t b s) \<le> pending s"
proof (cases "find (\<lambda>x. tid x = t) (timers s)")
  case None
  then show ?thesis by (simp add: fire_absent)
next
  case (Some x)
  have "length (timers (clearTimeout t s)) < length (timers s)"
    using find_Some_filter_less [OF Some] by (simp add: clearTimeout_def)
  then have "Suc (pending (clearTimeout t s)) \<le> pending s"
    by (simp add: pending_def unclosed_def clearTimeout_def)
  then show ?thesis
    using Some by (simp add: fire_def pending_connect)
qed

lemma pending_cleanup: "pending (cleanup c s) \<le> pending s"
  by (simp add: cleanup_def clearTimeout_def pending_def unclosed_def split: option.splits)

lemma pending_switchUser: "pending (switchUser u s) = pending s"
proof -
  have t: "\<And>x s'. pending (toast_add x s') = pending s'"
    by (simp add: toast_add_def pending_def unclosed_def)
  have "pending (snd (ws_send (wsRef s) (SwitchUser u) s)) = pending s"
    by (rule pending_ws_send)
  then show ?thesis
    by (cases "ws_send (wsRef s) (SwitchUser u) s")
      (auto simp add: switchUser_def t split: option.splits)
qed

lemma pending_step:
  assumes "own_listeners s" "\<not> lifecycle ev"
  shows "pending (step parse ev s) \<le> pending s"
proof (cases ev)
  case (Sock i e)
  then show ?thesis using assms(1) by (simp add: pending_deliver)
next
  case (Closing i)
  show ?thesis
  proof (cases "sock_state s i = Some OPEN")
    case True
    then have "i < length (sockets s)" by (simp add: sock_state_lt)
    then have "unclosed (set_ready i CLOSING s) = unclosed s"
      using True by (simp add: unclosed_keep)
    then show ?thesis using Closing True by (simp add: pending_def timers_set_ready)
  next
    case False
    then show ?thesis using Closing by simp
  qed
next
  case (Tick d)
  then show ?thesis by (simp add: pending_def unclosed_def)
qed (use assms(2) in \<open>simp_all add: pending_cleanup pending_fire pending_switchUser
        handleAccountUpdated_def pending_ws_send\<close>)

lemma pending_run:
  "reachable_inv s \<Longrightarrow> list_all (\<lambda>ev. \<not> lifecycle ev) evs \<Longrightarrow>
     pending (run parse evs s) \<le> pending s"
proof (induction evs arbitrary: s)
  case Nil
  then show ?case by (simp add: run_def)
next
  case (Cons ev evs)
  have "pending (run parse evs (step parse ev s)) \<le> pending (step parse ev s)"
    using Cons.prems by (intro Cons.IH) (simp_all add: inv_step)
  moreover have "pending (step parse ev s) \<le> pending s"
    using Cons.prems by (intro pending_step) (simp_all add: reachable_inv_def)
  ultimately show ?case by (simp add: run_def)
qed

text \<open>
  After one mount, and as long as the effect does not run again, at most one connection
  is in flight or established, whatever the sockets, the timers and the user do.
\<close>

lemma single_mount_one_connection:
  assumes "list_all (\<lambda>ev. \<not> lifecycle ev) evs"
  shows "inflight (run parse evs (step parse (Mount b) init_state)) \<le> 1"
proof -
  have i: "reachable_inv (step parse (Mount b) init_state)"
    by (rule inv_step [OF inv_init])
  have "pending (step parse (Mount b) init_state) = 1"
    by (simp add: effect_def created_def Let_def pending_connect)
       (simp add: pending_def unclosed_def init_state_def)
  then have "pending (run parse evs (step parse (Mount b) init_state)) \<le> 1"
    using pending_run [OF i assms, of parse] by simp
  then show ?thesis
    using inflight_le_pending [of "run parse evs (step parse (Mount b) init_state)"] by simp
qed

section \<open>Properties of the pagination controls\<close>

lemma click_total [simp]: "totalPages (click b t) = totalPages t"
  by (simp add: click_def totalPages_def)

lemma click_ge1: "1 \<le> page t \<Longrightarrow> 1 \<le> page (click b t)"
  by (cases b) (auto simp: click_def)

lemma table_step_ge1: "1 \<le> page t \<Longrightarrow> 1 \<le> page (table_step ev t)"
  by (cases ev) (simp_all add: click_ge1)

lemma table_run_ge1: "1 \<le> page t \<Longrightarrow> 1 \<le> page (table_run evs t)"
  unfolding table_run_def
  by (induction evs arbitrary: t) (simp_all add: table_step_ge1)

lemma click_le: "1 \<le> page t \<Longrightarrow> page t \<le> m \<Longrightarrow> totalPages t \<le> m \<Longrightarrow> page (click b t) \<le> m"
  by (cases b) (auto simp: click_def)

lemma clicks_le:
  "1 \<le> page t \<Longrightarrow> page t \<le> m \<Longrightarrow> totalPages t \<le> m \<Longrightarrow> page (fold click bs t) \<le> m"
proof (induction bs arbitrary: t)
  case Nil
  then show ?case by simp
next
  case (Cons b bs)
  have "page (fold click bs (click b t)) \<le> m"
    using Cons.prems by (intro Cons.IH) (simp_all add: click_ge1 click_le)
  then show ?case by simp
qed

text \<open>
  Claim C10. On page 1 the first-page and previous-page buttons are disabled, and on a
  page that is at least \<open>totalPages\<close> the next-page and last-page buttons are disabled; a
  click on a disabled button changes nothing. So after every sequence of clicks and
  loads from the initial state the page is at least 1, and no further sequence of clicks
  takes it above \<open>totalPages\<close> (or above where it already was, when the loaded
  \<open>total_pages\<close> is 0 or has become smaller than the page).
\<close>

theorem pagination_stays_in_bounds:
  "(page t = 1 \<longrightarrow> disabled First t \<and> disabled Prev t)
   \<and> (totalPages t \<le> page t \<longrightarrow> disabled Next t \<and> disabled Last t)
   \<and> (\<forall>b. disabled b t \<longrightarrow> click b t = t)
   \<and> 1 \<le> page (table_run evs init_table)
   \<and> page (fold click bs (table_run evs init_table))
        \<le> max (page (table_run evs init_table)) (totalPages (table_run evs init_table))"
proof -
  have g: "1 \<le> page (table_run evs init_table)"
    by (rule table_run_ge1) (simp add: init_table_def)
  have "page (fold click bs (table_run evs init_table))
        \<le> max (page (table_run evs init_table)) (totalPages (table_run evs init_table))"
    using g by (intro clicks_le) simp_all
  then show ?thesis using g by (simp add: click_def)
qed

theorem pagination_stays_in_bounds_witness:
  "page init_table = 1 \<and> disabled First init_table \<and> disabled Prev init_table
   \<and> totalPages (table_run [LoadStart, LoadOk 3, Click Last] init_table)
       \<le> page (table_run [LoadStart, LoadOk 3, Click Last] init_table)
   \<and> disabled Next (table_run [LoadStart, LoadOk 3, Click Last] init_table)
   \<and> disabled Last (table_run [LoadStart, LoadOk 3, Click Last] init_table)
   \<and> click Next (table_run [LoadStart, LoadOk 3, Click Last] init_table)
       = table_run [LoadStart, LoadOk 3, Click Last] init_table
   \<and> page (fold click [Next, Next, Next, Next, Prev]
        (table_run [LoadStart, LoadOk 3] init_table)) \<le> 3"
proof -
  let ?t = "table_run [LoadStart, LoadOk 3, Click Last] init_table"
  let ?u = "table_run [LoadStart, LoadOk 3] init_table"
  have a: "page init_table = 1" by (simp add: init_table_def)
  have b: "totalPages ?t \<le> page ?t"
    by (simp add: table_run_def init_table_def click_def totalPages_def)
  have c: "disabled Next ?t"
    using pagination_stays_in_bounds [of ?t "[]" "[]"] b by simp
  have d: "max (page ?u) (totalPages ?u) = 3"
    by (simp add: table_run_def init_table_def totalPages_def)
  show ?thesis
    using a b c pagination_stays_in_bounds [of init_table "[]" "[]"]
      pagination_stays_in_bounds [of ?t "[LoadStart, LoadOk 3]" "[Next, Next, Next, Next, Prev]"]
    by (simp add: d)
qed

end
